theory Spec2Isabelle
  imports Main "HOL-Library.Stream"
begin

section \<open>Snake game: the rules engine of \<open>python_game.py\<close>\<close>

text \<open>
  The game state of the source is embedded shallowly: the class \<open>Snake\<close> is a record,
  its methods are functions from a snake to the updated snake, an \<open>IndexError\<close> raised
  by \<open>self.body[0]\<close> on an empty list is a value of a sum type, and the rejection loop of
  \<open>generate_food\<close> is a partial function whose value \<open>None\<close> means that the loop
  never returns. Python integers are unbounded, hence \<open>int\<close>.
\<close>

subsection \<open>Constants\<close>

definition WINDOW_WIDTH :: int where "WINDOW_WIDTH = 600"
definition WINDOW_HEIGHT :: int where "WINDOW_HEIGHT = 400"
definition GRID_SIZE :: int where "GRID_SIZE = 20"
definition GRID_WIDTH :: int where "GRID_WIDTH = WINDOW_WIDTH div GRID_SIZE"
definition GRID_HEIGHT :: int where "GRID_HEIGHT = WINDOW_HEIGHT div GRID_SIZE"

type_synonym cell = "int \<times> int"

definition UP :: cell where "UP = (0, -1)"
definition DOWN :: cell where "DOWN = (0, 1)"
definition LEFT :: cell where "LEFT = (-1, 0)"
definition RIGHT :: cell where "RIGHT = (1, 0)"

subsection \<open>The class \<open>Snake\<close>\<close>

datatype py_error = IndexError

record snake =
  body :: "cell list"
  direction :: cell
  grow :: bool

text \<open>\<open>Snake.reset\<close>: three blocks in the middle of the grid, heading right.\<close>

definition reset :: snake where
  "reset = \<lparr> body = [ (GRID_WIDTH div 2, GRID_HEIGHT div 2),
                     (GRID_WIDTH div 2 - 1, GRID_HEIGHT div 2),
                     (GRID_WIDTH div 2 - 2, GRID_HEIGHT div 2) ],
             direction = RIGHT,
             grow = False \<rparr>"

text \<open>
  \<open>Snake.move\<close>. The cell \<open>new_head\<close> is what the source computes from \<open>self.body[0]\<close> and
  \<open>self.direction\<close>; \<open>insert(0, new_head)\<close> is a cons, \<open>pop()\<close> drops the last element of
  the list that already holds the new head.
\<close>

definition new_head :: "snake \<Rightarrow> py_error + cell" where
  "new_head s =
     (case body s of
        [] \<Rightarrow> Inl IndexError
      | head # _ \<Rightarrow> Inr (fst head + fst (direction s), snd head + snd (direction s)))"

definition move :: "snake \<Rightarrow> py_error + snake" where
  "move s =
     (case new_head s of
        Inl e \<Rightarrow> Inl e
      | Inr nh \<Rightarrow>
          (let inserted = nh # body s in
           if \<not> grow s then Inr (s\<lparr>body := butlast inserted\<rparr>)
           else Inr (s\<lparr>body := inserted, grow := False\<rparr>)))"

text \<open>\<open>Snake.check_collision\<close>: the wall test first, then the test against \<open>body[1:]\<close>.\<close>

definition check_collision :: "snake \<Rightarrow> py_error + bool" where
  "check_collision s =
     (case body s of
        [] \<Rightarrow> Inl IndexError
      | head # rest \<Rightarrow>
          if fst head < 0 \<or> fst head \<ge> GRID_WIDTH \<or> snd head < 0 \<or> snd head \<ge> GRID_HEIGHT
          then Inr True
          else if head \<in> set rest then Inr True
          else Inr False)"

text \<open>\<open>Snake.change_direction\<close>: the request is compared, negated, with the direction field.\<close>

definition change_direction :: "cell \<Rightarrow> snake \<Rightarrow> snake" where
  "change_direction new_direction s =
     (if (fst new_direction * (-1), snd new_direction * (-1)) \<noteq> direction s
      then s\<lparr>direction := new_direction\<rparr>
      else s)"

text \<open>\<open>Snake.eat_food\<close>: the returned flag together with the snake after the call.\<close>

definition eat_food :: "cell \<Rightarrow> snake \<Rightarrow> py_error + (bool \<times> snake)" where
  "eat_food food_pos s =
     (case body s of
        [] \<Rightarrow> Inl IndexError
      | head # _ \<Rightarrow> if head = food_pos then Inr (True, s\<lparr>grow := True\<rparr>) else Inr (False, s))"

text \<open>\<open>n\<close> consecutive calls of \<open>move\<close>, stopping at the first exception.\<close>

primrec moves :: "nat \<Rightarrow> snake \<Rightarrow> py_error + snake" where
  "moves 0 s = Inr s"
| "moves (Suc n) s = (case move s of Inl e \<Rightarrow> Inl e | Inr s' \<Rightarrow> moves n s')"

subsection \<open>Food placement\<close>

text \<open>
  The generator of \<open>random\<close> is an explicit stream of raw draws. \<open>random.randint(a, b)\<close>
  consumes one draw and returns an integer \<open>N\<close> with \<open>a \<le> N \<le> b\<close>, every such \<open>N\<close> being
  possible.
\<close>

type_synonym rng = "nat stream"

definition randint :: "int \<Rightarrow> int \<Rightarrow> rng \<Rightarrow> int \<times> rng" where
  "randint a b r = (a + int (shd r mod nat (b - a + 1)), stl r)"

text \<open>
  \<open>generate_food\<close>: \<open>while True\<close> draws a cell, the column first and the row second,
  and returns it once it is not in \<open>snake_body\<close>. The loop may run forever, so the result
  is an option; the generator after the call is returned with the cell.
\<close>

definition draw_cell :: "rng \<Rightarrow> cell \<times> rng" where
  "draw_cell r =
     (case randint 0 (GRID_WIDTH - 1) r of (x, r1) \<Rightarrow>
      case randint 0 (GRID_HEIGHT - 1) r1 of (y, r2) \<Rightarrow> ((x, y), r2))"

partial_function (option) generate_food :: "rng \<Rightarrow> cell list \<Rightarrow> (cell \<times> rng) option" where
  "generate_food r snake_body =
     (case draw_cell r of (food_pos, r') \<Rightarrow>
        if food_pos \<notin> set snake_body then Some (food_pos, r')
        else generate_food r' snake_body)"

declare generate_food.simps [code]

subsection \<open>One iteration of \<open>game_loop\<close>\<close>

datatype key = K_UP | K_DOWN | K_LEFT | K_RIGHT | K_c | K_q | K_other

datatype event = QUIT | KEYDOWN key | OTHER

record game =
  snake :: snake
  food_pos :: cell
  score :: int
  rand :: rng

text \<open>The game variables at the start of \<open>game_loop\<close>.\<close>

definition game_start :: "rng \<Rightarrow> game option" where
  "game_start r =
     (case generate_food r (body reset) of
        None \<Rightarrow> None
      | Some (p, r') \<Rightarrow> Some \<lparr> snake = reset, food_pos = p, score = 0, rand = r' \<rparr>)"

text \<open>The keyboard dispatch of one \<open>KEYDOWN\<close> event.\<close>

fun key_down :: "key \<Rightarrow> snake \<Rightarrow> snake" where
  "key_down K_UP s = change_direction UP s"
| "key_down K_DOWN s = change_direction DOWN s"
| "key_down K_LEFT s = change_direction LEFT s"
| "key_down K_RIGHT s = change_direction RIGHT s"
| "key_down _ s = s"

text \<open>
  The \<open>for event in pygame.event.get()\<close> loop over the events of one frame: \<open>None\<close> when a
  \<open>QUIT\<close> event makes \<open>game_loop\<close> return, otherwise the snake after all requests.
\<close>

fun handle_events :: "event list \<Rightarrow> snake \<Rightarrow> snake option" where
  "handle_events [] s = Some s"
| "handle_events (QUIT # _) s = None"
| "handle_events (KEYDOWN k # evs) s = handle_events evs (key_down k s)"
| "handle_events (OTHER # evs) s = handle_events evs s"

text \<open>
  The outcome of one pass through the body of \<open>while running\<close>: \<open>Quit\<close> for the
  \<open>return False\<close> of a \<open>QUIT\<close> event, \<open>GameOver g\<close> when \<open>game_over_screen\<close> is entered with
  the variables \<open>g\<close>, \<open>Running g\<close> when the loop goes on with the variables \<open>g\<close>. Drawing does
  not touch the game variables and is left out.
\<close>

datatype step_result = Quit | GameOver game | Running game

definition tick :: "event list \<Rightarrow> game \<Rightarrow> (py_error + step_result) option" where
  "tick evs g =
     (case handle_events evs (snake g) of
        None \<Rightarrow> Some (Inr Quit)
      | Some s1 \<Rightarrow>
         (case move s1 of
            Inl e \<Rightarrow> Some (Inl e)
          | Inr s2 \<Rightarrow>
             (case check_collision s2 of
                Inl e \<Rightarrow> Some (Inl e)
              | Inr True \<Rightarrow> Some (Inr (GameOver (g\<lparr>snake := s2\<rparr>)))
              | Inr False \<Rightarrow>
                 (case eat_food (food_pos g) s2 of
                    Inl e \<Rightarrow> Some (Inl e)
                  | Inr (True, s3) \<Rightarrow>
                     (case generate_food (rand g) (body s3) of
                        None \<Rightarrow> None
                      | Some (p, r') \<Rightarrow>
                          Some (Inr (Running \<lparr> snake = s3, food_pos = p,
                                               score = score g + 1, rand = r' \<rparr>)))
                  | Inr (False, s3) \<Rightarrow> Some (Inr (Running (g\<lparr>snake := s3\<rparr>)))))))"

text \<open>
  The \<open>while running\<close> loop over the events of successive frames: the game variables at
  the top of the next iteration, \<open>None\<close> once the loop has been left or a call has not
  returned.
\<close>

fun frames :: "event list list \<Rightarrow> game \<Rightarrow> game option" where
  "frames [] g = Some g"
| "frames (evs # evss) g =
     (case tick evs g of
        Some (Inr (Running g')) \<Rightarrow> frames evss g'
      | _ \<Rightarrow> None)"

subsection \<open>Notions used in the properties\<close>

text \<open>A cell of the grid: \<open>0 \<le> x < GRID_WIDTH\<close> and \<open>0 \<le> y < GRID_HEIGHT\<close>.\<close>

definition in_grid :: "cell \<Rightarrow> bool" where
  "in_grid c = (0 \<le> fst c \<and> fst c < GRID_WIDTH \<and> 0 \<le> snd c \<and> snd c < GRID_HEIGHT)"

text \<open>The exact opposite of a direction: its componentwise negation.\<close>

definition opposite :: "cell \<Rightarrow> cell" where
  "opposite d = (- fst d, - snd d)"

text \<open>\<open>snake.move()\<close> followed by \<open>snake.check_collision()\<close>, as \<open>game_loop\<close> calls them.\<close>

definition move_then_check :: "snake \<Rightarrow> py_error + bool" where
  "move_then_check s = (case move s of Inl e \<Rightarrow> Inl e | Inr s' \<Rightarrow> check_collision s')"

text \<open>A snake of four segments curled into a square, its head next to its tail.\<close>

definition curled :: snake where
  "curled = \<lparr> body = [(1, 1), (1, 2), (2, 2), (2, 1)], direction = RIGHT, grow = False \<rparr>"


text \<open>A one-segment snake in the top left corner, heading left.\<close>

definition corner :: "bool \<Rightarrow> snake" where
  "corner g = \<lparr> body = [(0, 0)], direction = LEFT, grow = g \<rparr>"

text \<open>The cell \<open>self.body[0]\<close> once \<open>move\<close> has run.\<close>

definition head_after_move :: "snake \<Rightarrow> py_error + cell" where
  "head_after_move s =
     (case move s of
        Inl e \<Rightarrow> Inl e
      | Inr s' \<Rightarrow> (case body s' of [] \<Rightarrow> Inl IndexError | h # _ \<Rightarrow> Inr h))"

text \<open>The starting snake after one move to the right.\<close>

definition first_step :: snake where
  "first_step = \<lparr> body = [(16, 10), (15, 10), (14, 10)], direction = RIGHT, grow = False \<rparr>"

text \<open>One of the four directions that the keyboard dispatch can request.\<close>

definition cardinal :: "cell \<Rightarrow> bool" where
  "cardinal c = (c = UP \<or> c = DOWN \<or> c = LEFT \<or> c = RIGHT)"

text \<open>The second segment, if there is one, lies one step behind the head.\<close>

definition trailing :: "snake \<Rightarrow> bool" where
  "trailing s =
     (case body s of
        h # b # _ \<Rightarrow> b = (fst h - fst (direction s), snd h - snd (direction s))
      | _ \<Rightarrow> True)"

text \<open>The game variables at the start of \<open>game_loop\<close> when every raw draw is 0.\<close>

definition all_zero :: game where
  "all_zero = \<lparr> snake = reset, food_pos = (0, 0), score = 0, rand = sconst 0 \<rparr>"

text \<open>The game variables after a first frame whose only event is the key Up.\<close>

definition going_up :: game where
  "going_up = \<lparr> snake = \<lparr> body = [(15, 9), (15, 10), (14, 10)], direction = UP, grow = False \<rparr>,
                food_pos = (0, 0), score = 0, rand = sconst 0 \<rparr>"


section \<open>Properties\<close>

subsection \<open>Basic facts\<close>

lemma grid_dims: "GRID_WIDTH = 30" "GRID_HEIGHT = 20"
  by (simp_all add: GRID_WIDTH_def GRID_HEIGHT_def WINDOW_WIDTH_def WINDOW_HEIGHT_def
      GRID_SIZE_def)

lemma randint_range:
  assumes "a \<le> b"
  shows "a \<le> fst (randint a b r)" and "fst (randint a b r) \<le> b"
proof -
  from assms have pos: "0 < nat (b - a + 1)" by simp
  show "a \<le> fst (randint a b r)" by (simp add: randint_def)
  have "shd r mod nat (b - a + 1) < nat (b - a + 1)"
    using pos by (rule mod_less_divisor)
  then show "fst (randint a b r) \<le> b"
    by (simp add: randint_def)
qed

lemma reset_body: "body reset = [(15, 10), (14, 10), (13, 10)]"
  by (simp add: reset_def grid_dims)

lemma move_Cons:
  assumes "body s = h # t"
  shows "move s = Inr (s\<lparr>body := (fst h + fst (direction s), snd h + snd (direction s)) #
                               (if grow s then h # t else butlast (h # t)),
                        grow := False\<rparr>)"
  using assms by (cases "grow s") (simp_all add: move_def new_head_def)

lemma check_collision_Cons:
  assumes "body s = h # t"
  shows "check_collision s = Inr (\<not> in_grid h \<or> h \<in> set t)"
  using assms by (auto simp add: check_collision_def in_grid_def)

lemma draw_cell_in_grid: "in_grid (fst (draw_cell r))"
proof -
  have w: "(0::int) \<le> GRID_WIDTH - 1" and h: "(0::int) \<le> GRID_HEIGHT - 1"
    by (simp_all add: grid_dims)
  obtain x r1 where x: "randint 0 (GRID_WIDTH - 1) r = (x, r1)" by (cases "randint 0 (GRID_WIDTH - 1) r")
  obtain y r2 where y: "randint 0 (GRID_HEIGHT - 1) r1 = (y, r2)" by (cases "randint 0 (GRID_HEIGHT - 1) r1")
  from randint_range [OF w, of r] x have "0 \<le> x" "x < GRID_WIDTH" by simp_all
  moreover from randint_range [OF h, of r1] y have "0 \<le> y" "y < GRID_HEIGHT" by simp_all
  ultimately show ?thesis by (simp add: draw_cell_def x y in_grid_def)
qed

lemma draw_cell_rest: "snd (draw_cell r) = stl (stl r)"
  by (simp add: draw_cell_def randint_def)

lemma generate_food_sound:
  assumes "generate_food r occ = Some res"
  shows "in_grid (fst res) \<and> fst res \<notin> set occ"
proof (rule generate_food.raw_induct [OF _ assms])
  fix gen :: "rng \<Rightarrow> cell list \<Rightarrow> (cell \<times> rng) option" and r occ res
  assume IH: "\<And>r occ res. gen r occ = Some res \<Longrightarrow> in_grid (fst res) \<and> fst res \<notin> set occ"
    and step: "(case draw_cell r of (q, r') \<Rightarrow>
                  if q \<notin> set occ then Some (q, r') else gen r' occ) = Some res"
  obtain p r' where d: "draw_cell r = (p, r')" by (cases "draw_cell r")
  show "in_grid (fst res) \<and> fst res \<notin> set occ"
  proof (cases "p \<in> set occ")
    case True
    with step d have "gen r' occ = Some res" by simp
    then show ?thesis by (rule IH)
  next
    case False
    with step d have "res = (p, r')" by simp
    moreover from draw_cell_in_grid [of r] d have "in_grid p" by simp
    ultimately show ?thesis using False by simp
  qed
qed

lemma generate_food_returns:
  assumes "fst (draw_cell (sdrop (2 * n) r)) \<notin> set occ"
  shows "\<exists>res. generate_food r occ = Some res"
  using assms
proof (induction n arbitrary: r)
  case 0
  obtain p r' where d: "draw_cell r = (p, r')" by (cases "draw_cell r")
  with 0 have "p \<notin> set occ" by simp
  with d show ?case by (subst generate_food.simps) simp
next
  case (Suc n)
  obtain p r' where d: "draw_cell r = (p, r')" by (cases "draw_cell r")
  with draw_cell_rest [of r] have r': "r' = stl (stl r)" by simp
  show ?case
  proof (cases "p \<in> set occ")
    case True
    from Suc.prems have "fst (draw_cell (sdrop (2 * n) r')) \<notin> set occ"
      by (simp add: r')
    then obtain res where "generate_food r' occ = Some res"
      using Suc.IH by blast
    with True d show ?thesis by (subst generate_food.simps) simp
  next
    case False
    with d show ?thesis by (subst generate_food.simps) simp
  qed
qed

lemma generate_food_full_grid:
  assumes "\<And>c. in_grid c \<Longrightarrow> c \<in> set occ"
  shows "generate_food r occ = None"
proof (cases "generate_food r occ")
  case None
  then show ?thesis .
next
  case (Some res)
  from generate_food_sound [OF Some] assms show ?thesis by blast
qed

lemma generate_food_free:
  assumes "fst (draw_cell r) \<notin> set occ"
  shows "generate_food r occ = Some (draw_cell r)"
proof -
  obtain p r' where d: "draw_cell r = (p, r')" by (cases "draw_cell r")
  with assms have "p \<notin> set occ" by simp
  with d show ?thesis by (subst generate_food.simps) simp
qed

lemma generate_food_taken:
  assumes "fst (draw_cell r) \<in> set occ"
  shows "generate_food r occ = generate_food (snd (draw_cell r)) occ"
proof -
  obtain p r' where d: "draw_cell r = (p, r')" by (cases "draw_cell r")
  with assms have "p \<in> set occ" by simp
  with d show ?thesis by (subst generate_food.simps) simp
qed

lemma draw_cell_sconst: "draw_cell (sconst 0) = ((0, 0), sconst 0)"
  by (simp add: draw_cell_def randint_def grid_dims)

lemma move_then_check_Cons:
  assumes "body s = h # t"
  shows "move_then_check s =
           Inr (\<not> in_grid (fst h + fst (direction s), snd h + snd (direction s)) \<or>
                (fst h + fst (direction s), snd h + snd (direction s))
                  \<in> set (if grow s then h # t else butlast (h # t)))"
  by (simp add: move_then_check_def move_Cons [OF assms] check_collision_Cons)


lemma head_after_move_Cons:
  assumes "body s = h # t"
  shows "head_after_move s = Inr (fst h + fst (direction s), snd h + snd (direction s))"
  by (simp add: head_after_move_def move_Cons [OF assms])

lemma change_direction_opposite:
  "change_direction d s = (if d = opposite (direction s) then s else s\<lparr>direction := d\<rparr>)"
proof -
  have "(fst d * (- 1), snd d * (- 1)) = direction s \<longleftrightarrow> d = opposite (direction s)"
    by (cases d; cases "direction s") (auto simp add: opposite_def)
  then show ?thesis by (simp add: change_direction_def)
qed

lemma move_keeps_shape:
  assumes "body s \<noteq> []" and "\<not> grow s"
  shows "\<exists>s'. move s = Inr s' \<and> length (body s') = length (body s) \<and> \<not> grow s' \<and>
              body s' \<noteq> []"
proof -
  from assms(1) obtain h t where b: "body s = h # t" by (cases "body s") auto
  from assms(2) show ?thesis by (simp add: move_Cons [OF b] b)
qed

lemma draw_cell_shift:
  "draw_cell ((a # b # ds) @- r) = ((int (a mod 30), int (b mod 20)), ds @- r)"
  by (simp add: draw_cell_def randint_def grid_dims)

lemma game_start_all_zero: "game_start (sconst 0) = Some all_zero"
proof -
  have "fst (draw_cell (sconst 0)) \<notin> set (body reset)"
    by (simp add: draw_cell_sconst reset_body)
  from generate_food_free [OF this] show ?thesis
    by (simp add: game_start_def draw_cell_sconst all_zero_def)
qed

lemma frames_going_up: "frames [[KEYDOWN K_UP]] all_zero = Some going_up"
  by (simp add: tick_def all_zero_def going_up_def reset_def grid_dims RIGHT_def UP_def
      change_direction_def move_def new_head_def check_collision_def eat_food_def)

lemma change_direction_cardinal:
  assumes "cardinal d" and "cardinal (direction s)"
  shows "cardinal (direction (change_direction d s))"
  using assms by (simp add: change_direction_def)

lemma key_down_cardinal:
  assumes "cardinal (direction s)"
  shows "cardinal (direction (key_down k s))"
proof -
  have "cardinal UP" "cardinal DOWN" "cardinal LEFT" "cardinal RIGHT"
    by (simp_all add: cardinal_def)
  with assms show ?thesis by (cases k) (simp_all add: change_direction_cardinal)
qed

lemma handle_events_cardinal:
  assumes "handle_events evs s = Some s'" and "cardinal (direction s)"
  shows "cardinal (direction s')"
  using assms
proof (induction evs s rule: handle_events.induct)
  case (3 k evs s)
  then show ?case by (simp add: key_down_cardinal)
qed simp_all

lemma move_trailing:
  assumes "move s = Inr s'"
  shows "direction s' = direction s \<and> trailing s'"
proof (cases "body s")
  case Nil
  with assms show ?thesis by (simp add: move_def new_head_def)
next
  case (Cons h t)
  from assms have s': "s' = s\<lparr>body := (fst h + fst (direction s), snd h + snd (direction s)) #
                               (if grow s then h # t else butlast (h # t)),
                        grow := False\<rparr>"
    by (simp add: move_Cons [OF Cons])
  show ?thesis
    by (cases t) (simp_all add: s' trailing_def)
qed

lemma eat_food_keeps:
  assumes "eat_food p s = Inr (ate, s')"
  shows "direction s' = direction s \<and> body s' = body s"
  using assms by (auto simp add: eat_food_def split: list.splits if_splits)

lemma trailing_cong:
  assumes "direction s' = direction s" and "body s' = body s" and "trailing s"
  shows "trailing s'"
  using assms by (simp add: trailing_def split: list.splits)

lemma tick_keeps:
  assumes "tick evs g = Some (Inr (Running g'))" and "cardinal (direction (snake g))"
  shows "cardinal (direction (snake g')) \<and> trailing (snake g')"
proof -
  from assms(1) obtain s1 s2 ate where
    ev: "handle_events evs (snake g) = Some s1" and
    mv: "move s1 = Inr s2" and
    ea: "eat_food (food_pos g) s2 = Inr (ate, snake g')"
    by (auto simp add: tick_def split: option.splits sum.splits bool.splits prod.splits)
  from handle_events_cardinal [OF ev assms(2)] have c1: "cardinal (direction s1)" .
  from move_trailing [OF mv] have m: "direction s2 = direction s1" "trailing s2" by simp_all
  from eat_food_keeps [OF ea] have e: "direction (snake g') = direction s2"
    "body (snake g') = body s2" by simp_all
  from c1 m e trailing_cong [OF e m(2)] show ?thesis by simp
qed

lemma reset_start: "cardinal (direction reset) \<and> trailing reset"
  by (simp add: reset_def cardinal_def trailing_def RIGHT_def grid_dims)

lemma game_start_snake:
  assumes "game_start r = Some g"
  shows "snake g = reset"
  using assms by (auto simp add: game_start_def split: option.splits)

lemma frames_keep:
  assumes "frames evss g = Some g'"
    and "cardinal (direction (snake g)) \<and> trailing (snake g)"
  shows "cardinal (direction (snake g')) \<and> trailing (snake g')"
  using assms
proof (induction evss arbitrary: g)
  case Nil
  then show ?case by simp
next
  case (Cons evs evss)
  from Cons.prems(1) obtain g1 where t: "tick evs g = Some (Inr (Running g1))"
    and f: "frames evss g1 = Some g'"
    by (auto split: option.splits sum.splits step_result.splits)
  from tick_keeps [OF t] Cons.prems(2) have "cardinal (direction (snake g1)) \<and> trailing (snake g1)"
    by simp
  from Cons.IH [OF f this] show ?case .
qed

lemma cardinal_step:
  fixes h c :: cell
  assumes "cardinal c"
  shows "(fst h - fst c, snd h - snd c) \<noteq> (fst h + fst c, snd h + snd c)"
  using assms by (auto simp add: cardinal_def UP_def DOWN_def LEFT_def RIGHT_def)

section \<open>The claims\<close>

subsection \<open>Moving into the tail cell\<close>

text \<open>
  C1, as stated, fails. The curled snake has \<open>grow\<close> false and four segments, and the head
  computed by \<open>move\<close> is the cell of its tail; yet \<open>check_collision\<close> after that \<open>move\<close>
  returns false, because \<open>move\<close> has already popped the tail when the check runs.
\<close>

theorem tail_cell_counterexample:
  "grow curled = False \<and> 2 \<le> length (body curled) \<and>
   new_head curled = Inr (last (body curled)) \<and> move_then_check curled = Inr False"
  by (simp add: curled_def new_head_def RIGHT_def move_then_check_def move_def
      check_collision_def grid_dims)

text \<open>
  C1, amended. For every snake with \<open>grow\<close> false and at least two segments whose next head
  is the cell of its tail, \<open>check_collision\<close> after \<open>move\<close> returns true exactly when that
  cell lies outside the grid or occurs once more among the segments before the tail. A tail
  cell inside the grid that occurs nowhere else in the body is therefore no collision.
\<close>

theorem tail_cell_collision:
  assumes "grow s = False" and "2 \<le> length (body s)"
    and "new_head s = Inr (last (body s))"
  shows "move_then_check s =
           Inr (\<not> in_grid (last (body s)) \<or> last (body s) \<in> set (butlast (body s)))"
proof -
  from assms(2) obtain h t where b: "body s = h # t"
    by (cases "body s") auto
  with assms(2) have t: "t \<noteq> []" by auto
  from assms(3) b
  have nh: "(fst h + fst (direction s), snd h + snd (direction s)) = last (body s)"
    by (simp add: new_head_def)
  show ?thesis
    using assms(1) t by (simp add: move_then_check_Cons [OF b] nh) (simp add: b)
qed

text \<open>C1, amended, at the curled snake, whose tail cell is free again after the move.\<close>

theorem tail_cell_collision_witness:
  "grow curled = False \<and> 2 \<le> length (body curled) \<and>
   new_head curled = Inr (last (body curled)) \<and>
   move_then_check curled =
     Inr (\<not> in_grid (last (body curled)) \<or> last (body curled) \<in> set (butlast (body curled)))"
proof -
  have g: "grow curled = False" and l: "2 \<le> length (body curled)"
    and n: "new_head curled = Inr (last (body curled))"
    by (simp_all add: curled_def new_head_def RIGHT_def)
  from tail_cell_collision [OF g l n] g l n show ?thesis by simp
qed

subsection \<open>The first tick with the food ahead\<close>




subsection \<open>Direction requests\<close>

text \<open>
  C3. For every direction \<open>c\<close> of the snake and every request \<open>d\<close>, \<open>change_direction d\<close>
  sets the direction to \<open>d\<close> unless \<open>d\<close> is the componentwise negation of \<open>c\<close>, in which case
  the snake is left as it is; the body and the grow flag never change. When the snake is the
  one found at the top of an iteration of \<open>while running\<close>, that is after the start of the
  game and any number of frames with any events, and the request \<open>d\<close> is the opposite of \<open>c\<close>,
  the direction stays \<open>c\<close> and the \<open>move\<close> that follows does not put the head on the
  previous second segment.
\<close>

theorem change_direction_spec:
  "change_direction d s = (if d = opposite (direction s) then s else s\<lparr>direction := d\<rparr>) \<and>
   body (change_direction d s) = body s \<and>
   grow (change_direction d s) = grow s \<and>
   (game_start r = Some g0 \<and> frames evss g0 = Some g \<and> s = snake g \<and>
    d = opposite (direction s) \<and> body s = h # b # rest \<longrightarrow>
      direction (change_direction d s) = direction s \<and>
      (\<exists>c. head_after_move (change_direction d s) = Inr c \<and> c \<noteq> b))"
proof -
  have first: "change_direction d s = (if d = opposite (direction s) then s else s\<lparr>direction := d\<rparr>)"
    by (rule change_direction_opposite)
  have second: "direction (change_direction d s) = direction s \<and>
      (\<exists>c. head_after_move (change_direction d s) = Inr c \<and> c \<noteq> b)"
    if st: "game_start r = Some g0" and fr: "frames evss g0 = Some g" and s: "s = snake g"
      and d: "d = opposite (direction s)" and b: "body s = h # b # rest"
  proof -
    from game_start_snake [OF st] reset_start
    have "cardinal (direction (snake g0)) \<and> trailing (snake g0)" by simp
    from frames_keep [OF fr this] s have c: "cardinal (direction s)" and t: "trailing s"
      by simp_all
    from t b have "b = (fst h - fst (direction s), snd h - snd (direction s))"
      by (simp add: trailing_def)
    with cardinal_step [OF c, of h]
    have "b \<noteq> (fst h + fst (direction s), snd h + snd (direction s))" by simp
    with d b show ?thesis by (simp add: change_direction_opposite head_after_move_Cons)
  qed
  have keep: "body (change_direction d s) = body s" "grow (change_direction d s) = grow s"
    by (simp_all add: change_direction_def)
  show ?thesis
  proof (intro conjI impI)
    show "change_direction d s =
            (if d = opposite (direction s) then s else s\<lparr>direction := d\<rparr>)"
      by (rule first)
    show "body (change_direction d s) = body s" by (rule keep(1))
    show "grow (change_direction d s) = grow s" by (rule keep(2))
  next
    assume a: "game_start r = Some g0 \<and> frames evss g0 = Some g \<and> s = snake g \<and>
               d = opposite (direction s) \<and> body s = h # b # rest"
    then have "game_start r = Some g0" "frames evss g0 = Some g" "s = snake g"
      "d = opposite (direction s)" "body s = h # b # rest"
      by blast+
    then have r: "direction (change_direction d s) = direction s \<and>
                  (\<exists>c. head_after_move (change_direction d s) = Inr c \<and> c \<noteq> b)"
      by (rule second)
    from r show "direction (change_direction d s) = direction s" by (rule conjunct1)
    from r show "\<exists>c. head_after_move (change_direction d s) = Inr c \<and> c \<noteq> b"
      by (rule conjunct2)
  qed
qed

text \<open>
  C3 after a first frame with the key Up: the request \<open>DOWN\<close> is ignored and the head goes
  on to \<open>(15, 8)\<close>, not back to \<open>(15, 10)\<close>.
\<close>

theorem change_direction_spec_witness:
  "game_start (sconst 0) = Some all_zero \<and>
   frames [[KEYDOWN K_UP]] all_zero = Some going_up \<and>
   DOWN = opposite (direction (snake going_up)) \<and>
   body (snake going_up) = [(15, 9), (15, 10), (14, 10)] \<and>
   change_direction DOWN (snake going_up) = snake going_up \<and>
   (\<exists>c. head_after_move (change_direction DOWN (snake going_up)) = Inr c \<and> c \<noteq> (15, 10))"
proof -
  have o: "DOWN = opposite (direction (snake going_up))"
    by (simp add: going_up_def UP_def DOWN_def opposite_def)
  have b: "body (snake going_up) = (15, 9) # (15, 10) # [(14, 10)]"
    by (simp add: going_up_def)
  note t = change_direction_spec [of DOWN "snake going_up" "sconst 0" all_zero
      "[[KEYDOWN K_UP]]" going_up "(15, 9)" "(15, 10)" "[(14, 10)]"]
  from t o have 1: "change_direction DOWN (snake going_up) = snake going_up" by simp
  from t have "game_start (sconst 0) = Some all_zero \<and>
      frames [[KEYDOWN K_UP]] all_zero = Some going_up \<and> snake going_up = snake going_up \<and>
      DOWN = opposite (direction (snake going_up)) \<and>
      body (snake going_up) = (15, 9) # (15, 10) # [(14, 10)] \<longrightarrow>
      direction (change_direction DOWN (snake going_up)) = direction (snake going_up) \<and>
      (\<exists>c. head_after_move (change_direction DOWN (snake going_up)) = Inr c \<and> c \<noteq> (15, 10))"
    by (elim conjE)
  with game_start_all_zero frames_going_up o b
  have 2: "\<exists>c. head_after_move (change_direction DOWN (snake going_up)) = Inr c \<and> c \<noteq> (15, 10)"
    by blast
  from game_start_all_zero frames_going_up o b 1 2 show ?thesis by (intro conjI) simp_all
qed

subsection \<open>Game over\<close>

text \<open>
  C4. In every tick in which \<open>check_collision\<close> returns true after \<open>move\<close>, \<open>game_loop\<close>
  enters \<open>game_over_screen\<close>; \<open>eat_food\<close> and \<open>generate_food\<close> are not called: the score, the
  food position and the generator are those before the tick, and the snake is the one
  \<open>move\<close> has left.
\<close>

theorem collision_ends_tick:
  assumes "handle_events evs (snake g) = Some s1" and "move s1 = Inr s2"
    and "check_collision s2 = Inr True"
  shows "tick evs g = Some (Inr (GameOver (g\<lparr>snake := s2\<rparr>))) \<and>
         score (g\<lparr>snake := s2\<rparr>) = score g \<and> food_pos (g\<lparr>snake := s2\<rparr>) = food_pos g \<and>
         rand (g\<lparr>snake := s2\<rparr>) = rand g"
  using assms by (simp add: tick_def)

text \<open>C4 at the corner snake, which leaves the grid through the left wall.\<close>

theorem collision_ends_tick_witness:
  "handle_events [] (corner False) = Some (corner False) \<and>
   move (corner False) = Inr \<lparr> body = [(-1, 0)], direction = LEFT, grow = False \<rparr> \<and>
   check_collision \<lparr> body = [(-1, 0)], direction = LEFT, grow = False \<rparr> = Inr True \<and>
   tick [] \<lparr> snake = corner False, food_pos = (5, 5), score = 7, rand = sconst 0 \<rparr> =
     Some (Inr (GameOver \<lparr> snake = \<lparr> body = [(-1, 0)], direction = LEFT, grow = False \<rparr>,
                           food_pos = (5, 5), score = 7, rand = sconst 0 \<rparr>))"
proof -
  have e: "handle_events [] (snake \<lparr> snake = corner False, food_pos = (5, 5), score = 7,
             rand = sconst 0 \<rparr>) = Some (corner False)" by simp
  have m: "move (corner False) = Inr \<lparr> body = [(-1, 0)], direction = LEFT, grow = False \<rparr>"
    by (simp add: corner_def LEFT_def move_def new_head_def)
  have c: "check_collision \<lparr> body = [(-1, 0)], direction = LEFT, grow = False \<rparr> = Inr True"
    by (simp add: check_collision_def)
  from collision_ends_tick [OF e m c] m c show ?thesis by simp
qed

subsection \<open>Moving\<close>

text \<open>
  C5. For every snake with a head, \<open>move\<close> returns a snake whose head is the old head plus
  the direction, componentwise and with no wrapping or clamping; the new head is put in
  front of the old body; the last element is then removed if \<open>grow\<close> was false, and
  otherwise the tail is kept and \<open>grow\<close> becomes false; the direction is untouched and the
  body has at least one segment.
\<close>

theorem move_spec:
  assumes "body s = h # t"
  shows "\<exists>s'. move s = Inr s' \<and>
           hd (body s') = (fst h + fst (direction s), snd h + snd (direction s)) \<and>
           body s' = (if grow s
                      then (fst h + fst (direction s), snd h + snd (direction s)) # body s
                      else butlast ((fst h + fst (direction s), snd h + snd (direction s)) # body s)) \<and>
           grow s' = False \<and> direction s' = direction s \<and> 1 \<le> length (body s')"
  using assms by (simp add: move_Cons [OF assms])

text \<open>C5 at the corner snake: the new head \<open>(-1, 0)\<close> is outside the grid.\<close>

theorem move_spec_witness:
  "body (corner False) = [(0, 0)] \<and>
   (\<exists>s'. move (corner False) = Inr s' \<and> hd (body s') = (-1, 0) \<and> body s' = [(-1, 0)] \<and>
      grow s' = False \<and> direction s' = LEFT \<and> 1 \<le> length (body s'))"
proof -
  have b: "body (corner False) = (0, 0) # []" by (simp add: corner_def)
  from move_spec [OF b] b show ?thesis by (simp add: corner_def LEFT_def)
qed

subsection \<open>Collision detection\<close>

text \<open>
  C6. For every snake with a head, \<open>check_collision\<close> returns true if and only if the head is
  outside \<open>[0, GRID_WIDTH) \<times> [0, GRID_HEIGHT)\<close> or equals an element of \<open>body[1:]\<close>; and for
  the snake \<open>[(0, 0)]\<close> heading left, whatever its \<open>grow\<close> flag, \<open>check_collision\<close> after one
  \<open>move\<close> is true.
\<close>

theorem check_collision_spec:
  assumes "body s = h # t"
  shows "check_collision s = Inr (\<not> in_grid h \<or> h \<in> set t) \<and>
         move_then_check (corner g) = Inr True"
proof -
  have "body (corner g) = (0, 0) # []" by (simp add: corner_def)
  then have "move_then_check (corner g) = Inr True"
    by (simp add: move_then_check_Cons corner_def LEFT_def in_grid_def)
  with check_collision_Cons [OF assms] show ?thesis by simp
qed

text \<open>C6 at the curled snake, whose head is inside the grid and on no other segment.\<close>

theorem check_collision_spec_witness:
  "body curled = [(1, 1), (1, 2), (2, 2), (2, 1)] \<and> check_collision curled = Inr False \<and>
   move_then_check (corner True) = Inr True"
proof -
  have b: "body curled = (1, 1) # [(1, 2), (2, 2), (2, 1)]" by (simp add: curled_def)
  from check_collision_spec [OF b, of True] b show ?thesis
    by (simp add: in_grid_def grid_dims)
qed

subsection \<open>Eating\<close>

text \<open>
  C7. For every snake with a head and every cell \<open>pos\<close>, \<open>eat_food pos\<close> returns true and sets
  \<open>grow\<close> exactly when the head equals \<open>pos\<close>, and otherwise returns false and leaves the
  snake as it is; after a success the next \<open>move\<close> makes the body one segment longer than
  before the call and resets \<open>grow\<close> to false.
\<close>

theorem eat_food_spec:
  assumes "body s = h # t"
  shows "eat_food pos s = Inr (h = pos, if h = pos then s\<lparr>grow := True\<rparr> else s) \<and>
         (h = pos \<longrightarrow>
            (\<exists>s2. move (s\<lparr>grow := True\<rparr>) = Inr s2 \<and>
                   length (body s2) = length (body s) + 1 \<and> grow s2 = False))"
proof -
  have b: "body (s\<lparr>grow := True\<rparr>) = h # t" using assms by simp
  show ?thesis using assms by (simp add: eat_food_def move_Cons [OF b])
qed

text \<open>C7 at the snake that has just stepped on the food at \<open>(16, 10)\<close>.\<close>

theorem eat_food_spec_witness:
  "body first_step = [(16, 10), (15, 10), (14, 10)] \<and>
   eat_food (16, 10) first_step = Inr (True, first_step\<lparr>grow := True\<rparr>) \<and>
   (\<exists>s2. move (first_step\<lparr>grow := True\<rparr>) = Inr s2 \<and> length (body s2) = 4 \<and> grow s2 = False)"
proof -
  have b: "body first_step = (16, 10) # [(15, 10), (14, 10)]" by (simp add: first_step_def)
  from eat_food_spec [OF b, of "(16, 10)"] b show ?thesis by (simp add: eval_nat_numeral)
qed

subsection \<open>Constant length\<close>

text \<open>
  C8. For every snake with a head and \<open>grow\<close> false and every \<open>n\<close>, \<open>n\<close> calls of \<open>move\<close> with
  no \<open>eat_food\<close> in between return a snake whose body is as long as before the calls, and
  \<open>grow\<close> is still false.
\<close>

theorem moves_length:
  assumes "body s \<noteq> []" and "grow s = False"
  shows "\<exists>s'. moves n s = Inr s' \<and> length (body s') = length (body s) \<and> grow s' = False"
  using assms
proof (induction n arbitrary: s)
  case 0
  then show ?case by simp
next
  case (Suc n)
  from Suc.prems obtain s1 where m: "move s = Inr s1"
    and l: "length (body s1) = length (body s)" and g: "\<not> grow s1" and b: "body s1 \<noteq> []"
    using move_keeps_shape [of s] by auto
  from Suc.IH [of s1] b g obtain s' where "moves n s1 = Inr s'"
    and "length (body s') = length (body s1)" and "grow s' = False" by auto
  with m l show ?case by simp
qed

text \<open>C8 for three moves of the starting snake.\<close>

theorem moves_length_witness:
  "body reset \<noteq> [] \<and> grow reset = False \<and>
   (\<exists>s'. moves 3 reset = Inr s' \<and> length (body s') = 3 \<and> grow s' = False)"
proof -
  have b: "body reset \<noteq> []" and g: "grow reset = False" by (simp_all add: reset_def)
  from moves_length [OF b g, of 3] b g show ?thesis by (simp add: reset_body eval_nat_numeral)
qed

subsection \<open>Food placement\<close>

text \<open>
  C9. Whenever \<open>generate_food\<close> returns, the cell it returns lies in
  \<open>[0, GRID_WIDTH) \<times> [0, GRID_HEIGHT)\<close> and is not a member of the occupied sequence it was
  given. This holds for every occupied sequence, so also for those that leave a cell of the
  grid free; for the others the loop does not return at all (\<open>generate_food_full_grid\<close>).
\<close>

theorem generate_food_spec:
  assumes "generate_food r occupied = Some (p, r')"
  shows "in_grid p \<and> p \<notin> set occupied"
  using generate_food_sound [OF assms] by simp

text \<open>
  C9 with a generator whose draws start 0, 1, 2, 3 and the cell \<open>(0, 1)\<close> occupied: the
  first cell drawn is rejected and the second, \<open>(2, 3)\<close>, is returned.
\<close>

theorem generate_food_spec_witness:
  "generate_food ([0, 1, 2, 3] @- sconst 0) [(0, 1)] = Some ((2, 3), sconst 0) \<and>
   in_grid (2, 3) \<and> (2, 3) \<notin> set [(0, 1) :: cell]"
proof -
  have d0: "draw_cell ([0, 1, 2, 3] @- sconst 0) = ((0, 1), [2, 3] @- sconst 0)"
    by (simp only: draw_cell_shift) simp
  have d2: "draw_cell ([2, 3] @- sconst 0) = ((2, 3), sconst 0)"
    by (simp only: draw_cell_shift) simp
  have "generate_food ([0, 1, 2, 3] @- sconst 0) [(0, 1)] =
          generate_food ([2, 3] @- sconst 0) [(0, 1)]"
    using generate_food_taken [of "[0, 1, 2, 3] @- sconst 0" "[(0, 1)]"]
    by (simp only: d0 fst_conv snd_conv) simp
  also have "\<dots> = Some ((2, 3), sconst 0)"
    using generate_food_free [of "[2, 3] @- sconst 0" "[(0, 1)]"]
    by (simp only: d2 fst_conv) simp
  finally have g: "generate_food ([0, 1, 2, 3] @- sconst 0) [(0, 1)] = Some ((2, 3), sconst 0)" .
  from generate_food_spec [OF g] g show ?thesis by (intro conjI) simp_all
qed

subsection \<open>Two requests in one frame\<close>

text \<open>
  C10. After a move to the right, the two requests Up and Left arriving in the same frame
  are both accepted: the first sets the direction to \<open>UP\<close>, the second is compared with \<open>UP\<close>
  and sets it to \<open>LEFT\<close>, the exact opposite of the heading of the previous move. The next
  \<open>move\<close> puts the head on the previous second segment, and \<open>check_collision\<close> is true.
\<close>

theorem double_request_reversal:
  "move reset = Inr first_step \<and> direction first_step = RIGHT \<and>
   key_down K_UP first_step = first_step\<lparr>direction := UP\<rparr> \<and>
   key_down K_LEFT (first_step\<lparr>direction := UP\<rparr>) = first_step\<lparr>direction := LEFT\<rparr> \<and>
   handle_events [KEYDOWN K_UP, KEYDOWN K_LEFT] first_step =
     Some (first_step\<lparr>direction := LEFT\<rparr>) \<and>
   LEFT = opposite RIGHT \<and>
   head_after_move (first_step\<lparr>direction := LEFT\<rparr>) = Inr (body first_step ! 1) \<and>
   move_then_check (first_step\<lparr>direction := LEFT\<rparr>) = Inr True"
  by (simp add: reset_def grid_dims first_step_def RIGHT_def LEFT_def UP_def opposite_def
      change_direction_def head_after_move_def move_then_check_def move_def new_head_def
      check_collision_def)

end
